theory Spec2Isabelle
  imports Complex_Main "HOL-Library.Sublist"
begin

section \<open>Data model\<close>

text \<open>
  The catalog is a pandas DataFrame read from a CSV file. A row carries the text columns
  (object dtype, where a missing cell is NaN: \<open>None\<close>) and the nine audio feature columns,
  in the order of \<open>AUDIO_FEATURES\<close> in \<open>data/loader.py\<close>. float64 arithmetic is
  idealised as arithmetic over the reals; NaN is written \<open>None\<close> where a column can hold it.
\<close>

datatype 'f audio = Audio
  (danceability: 'f) (energy: 'f) (loudness: 'f) (speechiness: 'f) (acousticness: 'f)
  (instrumentalness: 'f) (liveness: 'f) (valence: 'f) (tempo: 'f)

text \<open>A cell of a feature column as \<open>read_csv\<close> delivers it: a number, a text, or missing.\<close>

datatype cell = CNum real | CStr string | CNaN

record 'f row =
  track_id :: string
  track_name :: "string option"
  artists :: "string option"
  album_name :: "string option"
  genre :: "string option"
  popularity :: real
  audio :: "'f audio"

type_synonym raw_row = "cell row"
type_synonym track = "real row"

definition AUDIO_FEATURES :: "string list" where
  "AUDIO_FEATURES = [''danceability'', ''energy'', ''loudness'', ''speechiness'',
     ''acousticness'', ''instrumentalness'', ''liveness'', ''valence'', ''tempo'']"

text \<open>\<open>df[AUDIO_FEATURES].values\<close> for one row: the features in the order of the list.\<close>

definition values_of :: "'f audio \<Rightarrow> 'f list" where
  "values_of a = [danceability a, energy a, loudness a, speechiness a, acousticness a,
     instrumentalness a, liveness a, valence a, tempo a]"

section \<open>The loader (\<open>data/loader.py\<close>)\<close>

text \<open>
  \<open>pd.to_numeric(_, errors='coerce')\<close>: a number stays, a text is parsed, and what cannot
  be parsed becomes NaN. The parser of numeric texts is the library's and is a parameter.
\<close>

definition to_numeric :: "(string \<Rightarrow> real option) \<Rightarrow> cell \<Rightarrow> real option" where
  "to_numeric parse c = (case c of CNum x \<Rightarrow> Some x | CStr s \<Rightarrow> parse s | CNaN \<Rightarrow> None)"

definition fillna :: "'a \<Rightarrow> 'a option \<Rightarrow> 'a option" where
  "fillna v c = (case c of None \<Rightarrow> Some v | Some x \<Rightarrow> Some x)"

text \<open>Lines 30 to 33: the four text columns get their sentinel.\<close>

definition fill_text :: "'f row \<Rightarrow> 'f row" where
  "fill_text r = r\<lparr>artists := fillna ''Unknown Artist'' (artists r),
                  album_name := fillna ''Unknown Album'' (album_name r),
                  track_name := fillna ''Unknown Track'' (track_name r),
                  genre := fillna ''unknown'' (genre r)\<rparr>"

text \<open>Lines 35 to 37: every feature column is coerced and its NaN filled with 0.\<close>

definition coerce_features :: "(string \<Rightarrow> real option) \<Rightarrow> raw_row \<Rightarrow> (real option) row" where
  "coerce_features parse r =
     \<lparr>track_id = track_id r, track_name = track_name r, artists = artists r,
      album_name = album_name r, genre = genre r, popularity = popularity r,
      audio = map_audio (\<lambda>c. fillna 0 (to_numeric parse c)) (audio r)\<rparr>"

text \<open>Line 39: \<open>drop_duplicates(subset=['track_id'], keep='first')\<close>.\<close>

fun dedup :: "string list \<Rightarrow> 'f row list \<Rightarrow> 'f row list" where
  "dedup seen [] = []"
| "dedup seen (r # rs) =
     (if track_id r \<in> set seen then dedup seen rs else r # dedup (track_id r # seen) rs)"

definition drop_duplicates :: "'f row list \<Rightarrow> 'f row list" where
  "drop_duplicates rs = dedup [] rs"

text \<open>
  Line 41: \<open>dropna(subset=AUDIO_FEATURES)\<close> drops a row with a NaN in a feature column.
  The rows that stay have a number in every feature column.
\<close>

definition complete :: "(real option) row \<Rightarrow> bool" where
  "complete r = list_all (\<lambda>c. c \<noteq> None) (values_of (audio r))"

definition narrow :: "(real option) row \<Rightarrow> track" where
  "narrow r =
     \<lparr>track_id = track_id r, track_name = track_name r, artists = artists r,
      album_name = album_name r, genre = genre r, popularity = popularity r,
      audio = map_audio (\<lambda>c. case c of Some x \<Rightarrow> x | None \<Rightarrow> 0) (audio r)\<rparr>"

definition dropna :: "(real option) row list \<Rightarrow> track list" where
  "dropna rs = map narrow (filter complete rs)"

definition load_full_dataset :: "(string \<Rightarrow> real option) \<Rightarrow> raw_row list \<Rightarrow> track list" where
  "load_full_dataset parse raw =
     dropna (drop_duplicates (map (coerce_features parse) (map fill_text raw)))"

text \<open>
  What the loader makes of one raw row that it keeps: the text sentinels and, in each
  feature column, the parsed number or 0.
\<close>

definition clean :: "(string \<Rightarrow> real option) \<Rightarrow> raw_row \<Rightarrow> track" where
  "clean parse r =
     \<lparr>track_id = track_id r,
      track_name = Some (case track_name r of None \<Rightarrow> ''Unknown Track'' | Some s \<Rightarrow> s),
      artists = Some (case artists r of None \<Rightarrow> ''Unknown Artist'' | Some s \<Rightarrow> s),
      album_name = Some (case album_name r of None \<Rightarrow> ''Unknown Album'' | Some s \<Rightarrow> s),
      genre = Some (case genre r of None \<Rightarrow> ''unknown'' | Some s \<Rightarrow> s),
      popularity = popularity r,
      audio = map_audio (\<lambda>c. case to_numeric parse c of None \<Rightarrow> 0 | Some x \<Rightarrow> x) (audio r)\<rparr>"

section \<open>The similarity engine (\<open>recommendation_engine.py\<close>)\<close>

datatype error = ValueError | NotFinite | ReError

subsection \<open>numpy and scikit-learn\<close>

text \<open>
  Division of floats: numpy gives NaN or an infinity when the divisor is zero. That
  outcome is \<open>None\<close>, so that a computation that can produce it shows it.
\<close>

definition np_divide :: "real \<Rightarrow> real \<Rightarrow> real option" where
  "np_divide x y = (if y = 0 then None else Some (x / y))"

text \<open>
  \<open>sklearn.preprocessing._data._handle_zeros_in_scale\<close> on an array: an entry below
  ten machine epsilons is replaced by 1.
\<close>

definition eps :: real where
  "eps = 1 / 2 ^ 52"

definition handle_zeros_in_scale :: "real \<Rightarrow> real" where
  "handle_zeros_in_scale s = (if s < 10 * eps then 1 else s)"

text \<open>\<open>np.min\<close> and \<open>np.max\<close> along axis 0 read one column; a column is never empty.\<close>

definition column :: "nat \<Rightarrow> real list list \<Rightarrow> real list" where
  "column j X = map (\<lambda>r. r ! j) X"

fun minimum :: "real list \<Rightarrow> real" where
  "minimum [] = 0"
| "minimum (x # xs) = fold min xs x"

fun maximum :: "real list \<Rightarrow> real" where
  "maximum [] = 0"
| "maximum (x # xs) = fold max xs x"

record scaler =
  data_min :: "real list"
  data_max :: "real list"
  data_range :: "real list"
  scale :: "real list"
  min_off :: "real list"

definition n_features :: nat where
  "n_features = length AUDIO_FEATURES"

text \<open>
  \<open>MinMaxScaler().fit(X)\<close> with the feature range (0, 1): \<open>scale_\<close> is
  \<open>1 / _handle_zeros_in_scale(data_max - data_min)\<close> and \<open>min_\<close> is
  \<open>0 - data_min * scale_\<close> (here \<open>scale\<close> and \<open>min_off\<close>). An array without rows is
  refused by the input validation.
\<close>

definition fit :: "real list list \<Rightarrow> error + scaler" where
  "fit X =
     (if X = [] then Inl ValueError
      else
        let mn = map (\<lambda>j. minimum (column j X)) [0..<n_features];
            mx = map (\<lambda>j. maximum (column j X)) [0..<n_features];
            rg = map2 (\<lambda>a b. a - b) mx mn
        in case those (map (\<lambda>r. np_divide 1 (handle_zeros_in_scale r)) rg) of
             None \<Rightarrow> Inl NotFinite
           | Some sc \<Rightarrow>
               Inr \<lparr>data_min = mn, data_max = mx, data_range = rg, scale = sc,
                    min_off = map2 (\<lambda>m s. 0 - m * s) mn sc\<rparr>)"

text \<open>\<open>transform\<close> of one row: \<open>X *= scale_; X += min_\<close>, with no clipping.\<close>

definition transform :: "scaler \<Rightarrow> real list \<Rightarrow> real list" where
  "transform sc x = map2 (\<lambda>v (s, m). v * s + m) x (zip (scale sc) (min_off sc))"

text \<open>
  \<open>cosine_similarity(X, Y)\<close> normalises the rows of both arguments
  (\<open>normalize\<close>: each row is divided by \<open>_handle_zeros_in_scale\<close> of its Euclidean norm)
  and multiplies; the engine passes one row as \<open>X\<close> and reads row 0 of the result.
\<close>

definition row_norm :: "real list \<Rightarrow> real" where
  "row_norm v = sqrt (sum_list (map (\<lambda>x. x * x) v))"

definition normalize :: "real list \<Rightarrow> real list option" where
  "normalize v = those (map (\<lambda>x. np_divide x (handle_zeros_in_scale (row_norm v))) v)"

text \<open>The row that \<open>normalize\<close> computes.\<close>

definition unit_row :: "real list \<Rightarrow> real list" where
  "unit_row v = map (\<lambda>x. x / handle_zeros_in_scale (row_norm v)) v"

definition dot :: "real list \<Rightarrow> real list \<Rightarrow> real" where
  "dot u v = sum_list (map2 (\<lambda>a b. a * b) u v)"

definition cosine_similarity :: "real list \<Rightarrow> real list list \<Rightarrow> real list option" where
  "cosine_similarity x Y =
     (case normalize x of
        None \<Rightarrow> None
      | Some nx \<Rightarrow>
          (case those (map normalize Y) of
             None \<Rightarrow> None
           | Some nY \<Rightarrow> Some (map (\<lambda>ny. dot nx ny) nY)))"

text \<open>
  \<open>np.argsort\<close> gives the indices that sort the array in ascending order. Its default
  kind is an introsort that falls back to insertion sort on short arrays, where equal
  values keep their index order; numpy promises no order among equal values on longer
  ones. The model is the stable sort.
\<close>

definition argsort :: "real list \<Rightarrow> nat list" where
  "argsort xs = sort_key (\<lambda>i. xs ! i) [0..<length xs]"

text \<open>The slice \<open>xs[:n]\<close>: a negative \<open>n\<close> counts from the end.\<close>

definition slice_to :: "int \<Rightarrow> 'a list \<Rightarrow> 'a list" where
  "slice_to n xs = (if 0 \<le> n then take (nat n) xs else take (length xs - nat (- n)) xs)"

text \<open>
  \<open>round(x, 1)\<close> on a numpy float: \<open>np.rint(x * 10) / 10\<close>, and \<open>np.rint\<close> rounds a
  half to the even neighbour.
\<close>

definition rint :: "real \<Rightarrow> int" where
  "rint x =
     (let f = \<lfloor>x\<rfloor>; d = x - of_int f
      in if d < 1 / 2 then f else if 1 / 2 < d then f + 1 else if even f then f else f + 1)"

definition round1 :: "real \<Rightarrow> real" where
  "round1 x = of_int (rint (x * 10)) / 10"

subsection \<open>The recommender\<close>

record recommender =
  df :: "track list"
  the_scaler :: scaler
  scaled_features :: "real list list"

text \<open>\<open>__init__\<close> and \<open>_prepare_features\<close>: load, then \<open>fit_transform\<close> of the feature matrix.\<close>

definition MusicRecommender ::
  "(string \<Rightarrow> real option) \<Rightarrow> raw_row list \<Rightarrow> error + recommender" where
  "MusicRecommender parse raw =
     (let d = load_full_dataset parse raw;
          features = map (\<lambda>r. values_of (audio r)) d
      in case fit features of
           Inl e \<Rightarrow> Inl e
         | Inr sc \<Rightarrow> Inr \<lparr>df = d, the_scaler = sc, scaled_features = map (transform sc) features\<rparr>)"

text \<open>
  A comparison \<open>!=\<close> on an object column: a missing cell is NaN, which differs from
  everything.
\<close>

definition cell_ne :: "string option \<Rightarrow> string option \<Rightarrow> bool" where
  "cell_ne a b = (case (a, b) of (Some x, Some y) \<Rightarrow> x \<noteq> y | _ \<Rightarrow> True)"

type_synonym recommendation = "track \<times> real"

definition get_recommendations ::
  "recommender \<Rightarrow> string \<Rightarrow> int \<Rightarrow> bool \<Rightarrow> error + recommendation list" where
  "get_recommendations R tid n_recommendations exclude_same_artist =
     (case filter (\<lambda>i. track_id (df R ! i) = tid) [0..<length (df R)] of
        [] \<Rightarrow> Inr []
      | idx # _ \<Rightarrow>
          (case cosine_similarity (scaled_features R ! idx) (scaled_features R) of
             None \<Rightarrow> Inl NotFinite
           | Some similarities0 \<Rightarrow>
               let (top_indices, top_scores) =
                 (if exclude_same_artist then
                    let seed_artist = artists (df R ! idx);
                        mask = (map (\<lambda>r. cell_ne (artists r) seed_artist) (df R))[idx := False];
                        valid_indices = filter (\<lambda>i. mask ! i) [0..<length mask];
                        valid_similarities = map (\<lambda>i. similarities0 ! i) valid_indices;
                        top_indices_local =
                          slice_to n_recommendations (rev (argsort valid_similarities))
                    in (map (\<lambda>l. valid_indices ! l) top_indices_local,
                        map (\<lambda>l. valid_similarities ! l) top_indices_local)
                  else
                    let similarities = similarities0[idx := - 1];
                        top = slice_to n_recommendations (rev (argsort similarities))
                    in (top, map (\<lambda>i. similarities ! i) top))
               in Inr (map (\<lambda>(i, track_idx). (df R ! track_idx, round1 (top_scores ! i * 100)))
                        (enumerate 0 top_indices))))"

text \<open>\<open>features_dict.get(key, default)\<close>.\<close>

definition dict_get :: "(string \<rightharpoonup> real) \<Rightarrow> string \<Rightarrow> real \<Rightarrow> real" where
  "dict_get d k v = (case d k of None \<Rightarrow> v | Some x \<Rightarrow> x)"

definition feature_vector :: "(string \<rightharpoonup> real) \<Rightarrow> real list" where
  "feature_vector features_dict =
     [dict_get features_dict ''danceability'' 0.5,
      dict_get features_dict ''energy'' 0.5,
      dict_get features_dict ''loudness'' (- 10),
      dict_get features_dict ''speechiness'' 0.1,
      dict_get features_dict ''acousticness'' 0.5,
      dict_get features_dict ''instrumentalness'' 0.0,
      dict_get features_dict ''liveness'' 0.2,
      dict_get features_dict ''valence'' 0.5,
      dict_get features_dict ''tempo'' 120]"

text \<open>Lines 137 to 148, from the assembled query vector on.\<close>

definition rank_by_vector ::
  "recommender \<Rightarrow> real list \<Rightarrow> int \<Rightarrow> error + recommendation list" where
  "rank_by_vector R v n_recommendations =
     (let scaled_vector = transform (the_scaler R) v
      in case cosine_similarity scaled_vector (scaled_features R) of
           None \<Rightarrow> Inl NotFinite
         | Some similarities \<Rightarrow>
             let top_indices = slice_to n_recommendations (rev (argsort similarities))
             in Inr (map (\<lambda>idx. (df R ! idx, round1 (similarities ! idx * 100))) top_indices))"

definition get_recommendations_by_features ::
  "recommender \<Rightarrow> (string \<rightharpoonup> real) \<Rightarrow> int \<Rightarrow> error + recommendation list" where
  "get_recommendations_by_features R features_dict n_recommendations =
     rank_by_vector R (feature_vector features_dict) n_recommendations"

text \<open>\<open>str.lower\<close>, on the ASCII letters.\<close>

definition lower_char :: "char \<Rightarrow> char" where
  "lower_char c =
     (let n = (of_char c :: nat) in if 65 \<le> n \<and> n \<le> 90 then char_of (n + 32) else c)"

definition lower :: "string \<Rightarrow> string" where
  "lower s = map lower_char s"

definition mood_presets :: "string \<rightharpoonup> (string \<rightharpoonup> real)" where
  "mood_presets = map_of
     [(''happy'', map_of [(''valence'', 0.8), (''energy'', 0.7), (''danceability'', 0.7)]),
      (''sad'', map_of [(''valence'', 0.2), (''energy'', 0.3), (''acousticness'', 0.6)]),
      (''energetic'', map_of [(''energy'', 0.9), (''tempo'', 140), (''danceability'', 0.7)]),
      (''chill'', map_of [(''energy'', 0.3), (''acousticness'', 0.7), (''valence'', 0.5)]),
      (''party'', map_of [(''danceability'', 0.9), (''energy'', 0.8), (''valence'', 0.7)]),
      (''focus'', map_of [(''instrumentalness'', 0.7), (''speechiness'', 0.05), (''energy'', 0.4)])]"

definition get_mood_based_recommendations ::
  "recommender \<Rightarrow> string \<Rightarrow> int \<Rightarrow> error + recommendation list" where
  "get_mood_based_recommendations R mood n_recommendations =
     (case mood_presets (lower mood) of
        None \<Rightarrow> Inr []
      | Some preset \<Rightarrow> get_recommendations_by_features R preset n_recommendations)"

text \<open>
  \<open>Series.str.contains(query, na=False)\<close> takes \<open>query\<close> as a regular expression
  (\<open>regex=True\<close> is the default): the pattern is compiled once, which raises
  \<open>re.error\<close> on a malformed pattern, and searched in every cell; a missing cell gives
  \<open>False\<close>. Python's \<open>re\<close> is the parameter \<open>re_compile\<close>: the search function of a
  pattern, or \<open>None\<close> where compiling it raises.
\<close>

definition str_contains :: "(string \<Rightarrow> bool) \<Rightarrow> string option \<Rightarrow> bool" where
  "str_contains search c = (case c of None \<Rightarrow> False | Some s \<Rightarrow> search s)"

definition str_lower :: "string option \<Rightarrow> string option" where
  "str_lower c = map_option lower c"

definition search_tracks ::
  "(string \<Rightarrow> (string \<Rightarrow> bool) option) \<Rightarrow> recommender \<Rightarrow> string \<Rightarrow> error + track list" where
  "search_tracks re_compile R query =
     (case re_compile (lower query) of
        None \<Rightarrow> Inl ReError
      | Some search \<Rightarrow>
          Inr (filter (\<lambda>r. str_contains search (str_lower (track_name r))
                          \<or> str_contains search (str_lower (artists r))) (df R)))"

section \<open>Example data and the documented defaults\<close>

text \<open>
  A parser that reads no text as a number, for tables whose feature cells are numbers or
  unparseable; and a raw row with the given id, artist and features.
\<close>

definition no_parse :: "string \<Rightarrow> real option" where
  "no_parse s = None"

definition demo_row :: "string \<Rightarrow> string \<Rightarrow> cell audio \<Rightarrow> raw_row" where
  "demo_row tid artist a =
     \<lparr>track_id = tid, track_name = Some tid, artists = Some artist, album_name = None,
      genre = None, popularity = 0, audio = a\<rparr>"

text \<open>A table of one row whose danceability is missing and whose energy is no number.\<close>

definition raw_missing :: "raw_row list" where
  "raw_missing = [demo_row ''t1'' ''x''
     (Audio CNaN (CStr ''loud'') (CNum 1) (CNum 1) (CNum 1) (CNum 1) (CNum 1) (CNum 1) (CNum 1))]"

text \<open>
  The defaults as the specification lists them, field by field, and the query vector it
  describes: the value of the mapping where the field is present, the default otherwise.
\<close>

definition documented_defaults :: "(string \<times> real) list" where
  "documented_defaults =
     [(''danceability'', 0.5), (''energy'', 0.5), (''loudness'', - 10), (''speechiness'', 0.1),
      (''acousticness'', 0.5), (''instrumentalness'', 0.0), (''liveness'', 0.2),
      (''valence'', 0.5), (''tempo'', 120)]"

definition spec_query_vector :: "(string \<rightharpoonup> real) \<Rightarrow> real list" where
  "spec_query_vector m =
     map (\<lambda>(k, d). case m k of Some v \<Rightarrow> v | None \<Rightarrow> d) documented_defaults"

section \<open>Closed forms used in the proofs\<close>

text \<open>The scaler that \<open>fit\<close> returns for a matrix with at least one row.\<close>

definition fitted :: "real list list \<Rightarrow> scaler" where
  "fitted X =
     (let mn = map (\<lambda>j. minimum (column j X)) [0..<n_features];
          mx = map (\<lambda>j. maximum (column j X)) [0..<n_features];
          rg = map2 (\<lambda>a b. a - b) mx mn;
          sc = map (\<lambda>r. 1 / handle_zeros_in_scale r) rg
      in \<lparr>data_min = mn, data_max = mx, data_range = rg, scale = sc,
          min_off = map2 (\<lambda>m s. 0 - m * s) mn sc\<rparr>)"

text \<open>The feature matrix of a table, \<open>df[feature_columns].values\<close>.\<close>

definition features_of :: "track list \<Rightarrow> real list list" where
  "features_of d = map (\<lambda>r. values_of (audio r)) d"

text \<open>Row 0 of \<open>cosine_similarity(seed_features, scaled_features)\<close> for the seed at \<open>idx\<close>.\<close>

definition similarities_of :: "recommender \<Rightarrow> nat \<Rightarrow> real list" where
  "similarities_of R idx =
     map (\<lambda>y. dot (unit_row (scaled_features R ! idx)) (unit_row y)) (scaled_features R)"

section \<open>Properties of the loader\<close>

lemma dedup_map:
  assumes "\<And>r. track_id (f r) = track_id r"
  shows "dedup seen (map f rs) = map f (dedup seen rs)"
  using assms by (induction rs arbitrary: seen) simp_all

lemma dedup_ids: "x \<in> set seen \<Longrightarrow> x \<notin> track_id ` set (dedup seen rs)"
proof (induction rs arbitrary: seen)
  case Nil
  show ?case by simp
next
  case (Cons r rs)
  show ?case
  proof (cases "track_id r \<in> set seen")
    case True
    with Cons show ?thesis by simp
  next
    case False
    have "x \<in> set (track_id r # seen)" using Cons.prems by simp
    from Cons.IH [OF this] False Cons.prems show ?thesis by auto
  qed
qed

lemma dedup_subset: "set (dedup seen rs) \<subseteq> set rs"
  by (induction rs arbitrary: seen) auto

lemma dedup_distinct: "distinct (map track_id (dedup seen rs))"
proof (induction rs arbitrary: seen)
  case Nil
  show ?case by simp
next
  case (Cons r rs)
  have "track_id r \<notin> set (map track_id (dedup (track_id r # seen) rs))"
    using dedup_ids [of "track_id r" "track_id r # seen" rs] by simp
  with Cons show ?case by simp
qed

lemma complete_coerce: "complete (coerce_features parse r)"
  by (cases "audio r") (simp add: complete_def coerce_features_def values_of_def fillna_def split: option.splits)

lemma narrow_coerce_fill: "narrow (coerce_features parse (fill_text r)) = clean parse r"
proof -
  have "(case fillna (0::real) c of Some x \<Rightarrow> x | None \<Rightarrow> 0) = (case c of None \<Rightarrow> 0 | Some x \<Rightarrow> x)" for c
    by (simp add: fillna_def split: option.splits)
  then have "map_audio (\<lambda>c. case c of Some x \<Rightarrow> x | None \<Rightarrow> 0)
               (map_audio (\<lambda>c. fillna (0::real) (to_numeric parse c)) a)
             = map_audio (\<lambda>c. case to_numeric parse c of None \<Rightarrow> 0 | Some x \<Rightarrow> x) a" for a
    by (simp add: audio.map_comp comp_def)
  then show ?thesis
    by (simp add: narrow_def coerce_features_def fill_text_def clean_def fillna_def split: option.splits)
qed

lemma load_eq: "load_full_dataset parse raw = map (clean parse) (drop_duplicates raw)"
proof -
  let ?f = "\<lambda>r. coerce_features parse (fill_text r)"
  have id: "\<And>r. track_id (?f r) = track_id r"
    by (simp add: coerce_features_def fill_text_def)
  have "drop_duplicates (map (coerce_features parse) (map fill_text raw)) = map ?f (drop_duplicates raw)"
    unfolding drop_duplicates_def using dedup_map [of ?f "[]" raw, OF id] by (simp add: comp_def)
  moreover have "filter complete (map ?f rs) = map ?f rs" for rs
    by (induction rs) (simp_all add: complete_coerce)
  ultimately show ?thesis
    by (simp add: load_full_dataset_def dropna_def narrow_coerce_fill)
qed

lemma load_distinct: "distinct (map track_id (load_full_dataset parse raw))"
proof -
  have "map track_id (map (clean parse) rs) = map track_id rs" for rs
    by (simp add: clean_def)
  then show ?thesis
    by (simp only: load_eq drop_duplicates_def dedup_distinct)
qed

lemma load_artists: "r \<in> set (load_full_dataset parse raw) \<Longrightarrow> artists r \<noteq> None \<and> track_name r \<noteq> None"
  by (auto simp: load_eq clean_def)

section \<open>Properties of the numeric library functions\<close>

lemma eps_pos: "0 < eps" by (simp add: eps_def)

lemma handle_zeros_pos: "0 < handle_zeros_in_scale s"
proof (cases "s < 10 * eps")
  case True
  then show ?thesis by (simp add: handle_zeros_in_scale_def)
next
  case False
  then have "10 * eps \<le> s" by simp
  moreover have "0 < 10 * eps" using eps_pos by simp
  ultimately have "0 < s" by linarith
  with False show ?thesis by (simp add: handle_zeros_in_scale_def)
qed

lemma np_divide_handle_zeros:
  "np_divide x (handle_zeros_in_scale s) = Some (x / handle_zeros_in_scale s)"
  using handle_zeros_pos [of s] by (simp add: np_divide_def)

lemma those_map_Some: "those (map (\<lambda>x. Some (f x)) xs) = Some (map f xs)"
  by (induction xs) simp_all

lemma normalize_eq: "normalize v = Some (unit_row v)"
  by (simp add: normalize_def unit_row_def np_divide_handle_zeros those_map_Some)

lemma cosine_similarity_eq:
  "cosine_similarity x Y = Some (map (\<lambda>y. dot (unit_row x) (unit_row y)) Y)"
proof -
  have "map normalize Y = map (\<lambda>y. Some (unit_row y)) Y"
    by (simp add: normalize_eq)
  then have "those (map normalize Y) = Some (map unit_row Y)"
    by (simp only: those_map_Some)
  then show ?thesis
    by (simp add: cosine_similarity_def normalize_eq)
qed

lemma dot_nonneg:
  "list_all (\<lambda>a. 0 \<le> a) u \<Longrightarrow> list_all (\<lambda>a. 0 \<le> a) v \<Longrightarrow> 0 \<le> dot u v"
proof (induction u arbitrary: v)
  case Nil
  show ?case by (simp add: dot_def)
next
  case (Cons a u)
  show ?case
  proof (cases v)
    case Nil
    then show ?thesis by (simp add: dot_def)
  next
    case (Cons b w)
    with Cons.prems Cons.IH [of w] show ?thesis by (simp add: dot_def)
  qed
qed

lemma unit_row_nonneg:
  assumes "list_all (\<lambda>a. 0 \<le> a) v"
  shows "list_all (\<lambda>a. 0 \<le> a) (unit_row v)"
proof -
  have p: "0 < handle_zeros_in_scale (row_norm v)" by (rule handle_zeros_pos)
  have "0 \<le> x / handle_zeros_in_scale (row_norm v)" if "0 \<le> x" for x
    using that p by (rule divide_nonneg_pos)
  then show ?thesis using assms by (auto simp: unit_row_def list_all_iff)
qed

lemma fold_min_le: "fold min xs (a::real) \<le> a"
proof (induction xs arbitrary: a)
  case Nil
  show ?case by simp
next
  case (Cons y ys)
  have "fold min ys (min y a) \<le> min y a" by (rule Cons.IH)
  also have "min y a \<le> a" by simp
  finally show ?case by simp
qed

lemma fold_min_le_mem: "x \<in> set xs \<Longrightarrow> fold min xs (a::real) \<le> x"
proof (induction xs arbitrary: a)
  case Nil
  then show ?case by simp
next
  case (Cons y ys)
  show ?case
  proof (cases "x = y")
    case True
    have "fold min ys (min y a) \<le> min y a" by (rule fold_min_le)
    then show ?thesis using True by simp
  next
    case False
    with Cons show ?thesis by simp
  qed
qed

lemma minimum_le: "minimum xs \<le> x" if "x \<in> set xs"
proof (cases xs)
  case Nil
  then show ?thesis using that by simp
next
  case (Cons y ys)
  show ?thesis
  proof (cases "x = y")
    case True
    then show ?thesis using Cons fold_min_le [of ys y] by simp
  next
    case False
    then have "x \<in> set ys" using that Cons by simp
    then show ?thesis using Cons fold_min_le_mem [of x ys y] by simp
  qed
qed

lemma fold_max_ge: "(a::real) \<le> fold max xs a"
proof (induction xs arbitrary: a)
  case Nil
  show ?case by simp
next
  case (Cons y ys)
  have "a \<le> max y a" by simp
  also have "max y a \<le> fold max ys (max y a)" by (rule Cons.IH)
  finally show ?case by simp
qed

lemma fold_max_ge_mem: "x \<in> set xs \<Longrightarrow> x \<le> fold max xs (a::real)"
proof (induction xs arbitrary: a)
  case Nil
  then show ?case by simp
next
  case (Cons y ys)
  show ?case
  proof (cases "x = y")
    case True
    have "max y a \<le> fold max ys (max y a)" by (rule fold_max_ge)
    then show ?thesis using True by simp
  next
    case False
    with Cons show ?thesis by simp
  qed
qed

lemma maximum_ge: "x \<le> maximum xs" if "x \<in> set xs"
proof (cases xs)
  case Nil
  then show ?thesis using that by simp
next
  case (Cons y ys)
  show ?thesis
  proof (cases "x = y")
    case True
    then show ?thesis using Cons fold_max_ge [of y ys] by simp
  next
    case False
    then have "x \<in> set ys" using that Cons by simp
    then show ?thesis using Cons fold_max_ge_mem [of x ys y] by simp
  qed
qed

section \<open>Properties of the recommender\<close>

lemma no_index_of_unknown_id:
  "tid \<notin> track_id ` set d \<Longrightarrow> filter (\<lambda>i. track_id (d ! i) = tid) [0..<length d] = []"
  by (auto simp: filter_empty_conv)

section \<open>Properties of sorting, slicing and rounding\<close>

lemma length_argsort: "length (argsort xs) = length xs"
  by (simp add: argsort_def)

lemma set_argsort: "set (argsort xs) = {0..<length xs}"
  by (simp add: argsort_def)

lemma distinct_argsort: "distinct (argsort xs)"
  by (simp add: argsort_def)

lemma sorted_argsort: "sorted (map (\<lambda>i. xs ! i) (argsort xs))"
  by (simp add: argsort_def)

lemma sorted_desc_rev_argsort:
  "sorted_wrt (\<lambda>a b. b \<le> a) (map (\<lambda>i. xs ! i) (rev (argsort xs)))"
proof -
  have "sorted (rev (map (\<lambda>i. xs ! i) (rev (argsort xs))))"
    using sorted_argsort [of xs] by (simp add: rev_map)
  then show ?thesis
    by (simp add: sorted_wrt_rev)
qed

lemma slice_to_take: "\<exists>m. slice_to n xs = take m xs"
  by (auto simp: slice_to_def)

lemma set_slice_to: "set (slice_to n xs) \<subseteq> set xs"
  using slice_to_take [of n xs] by (auto dest: in_set_takeD)

lemma sorted_wrt_slice_to:
  "sorted_wrt P (map f xs) \<Longrightarrow> sorted_wrt P (map f (slice_to n xs))"
proof -
  assume s: "sorted_wrt P (map f xs)"
  obtain m where m: "slice_to n xs = take m xs" using slice_to_take by blast
  have "sorted_wrt P (take m (map f xs))" using s by (rule sorted_wrt_take)
  then show ?thesis by (simp add: m take_map)
qed

lemma rint_mono: "x \<le> y \<Longrightarrow> rint x \<le> rint y"
proof -
  assume xy: "x \<le> y"
  have fx: "of_int \<lfloor>x\<rfloor> \<le> x" "x < of_int \<lfloor>x\<rfloor> + 1" by linarith+
  have fy: "of_int \<lfloor>y\<rfloor> \<le> y" "y < of_int \<lfloor>y\<rfloor> + 1" by linarith+
  have lo: "\<lfloor>x\<rfloor> \<le> rint x" "rint x \<le> \<lfloor>x\<rfloor> + 1" by (simp_all add: rint_def Let_def)
  have loy: "\<lfloor>y\<rfloor> \<le> rint y" "rint y \<le> \<lfloor>y\<rfloor> + 1" by (simp_all add: rint_def Let_def)
  have fl: "\<lfloor>x\<rfloor> \<le> \<lfloor>y\<rfloor>" using xy by (rule floor_mono)
  show ?thesis
  proof (cases "\<lfloor>x\<rfloor> = \<lfloor>y\<rfloor>")
    case True
    then have "x - of_int \<lfloor>x\<rfloor> \<le> y - of_int \<lfloor>y\<rfloor>" using xy by simp
    then show ?thesis using True by (auto simp: rint_def Let_def)
  next
    case False
    then have "\<lfloor>x\<rfloor> + 1 \<le> \<lfloor>y\<rfloor>" using fl by simp
    then show ?thesis using lo loy by linarith
  qed
qed

lemma round1_mono: "x \<le> y \<Longrightarrow> round1 x \<le> round1 y"
proof -
  assume "x \<le> y"
  then have "x * 10 \<le> y * 10" by simp
  then have "rint (x * 10) \<le> rint (y * 10)" by (rule rint_mono)
  then show ?thesis by (simp add: round1_def divide_right_mono)
qed

lemma sorted_desc_map_mono:
  assumes "sorted_wrt (\<lambda>a b. b \<le> a) xs" and "\<And>a b. a \<le> b \<Longrightarrow> f a \<le> f b"
  shows "sorted_wrt (\<lambda>a b. b \<le> a) (map f xs)"
  using assms by (induction xs) auto

section \<open>Properties of the scaler and of the constructor\<close>

lemma fit_eq: "X \<noteq> [] \<Longrightarrow> fit X = Inr (fitted X)"
proof -
  assume "X \<noteq> []"
  have "map (\<lambda>r. np_divide 1 (handle_zeros_in_scale r)) rg
        = map (\<lambda>r. Some (1 / handle_zeros_in_scale r)) rg" for rg
    by (simp add: np_divide_handle_zeros)
  then have "those (map (\<lambda>r. np_divide 1 (handle_zeros_in_scale r)) rg)
        = Some (map (\<lambda>r. 1 / handle_zeros_in_scale r) rg)" for rg
    by (simp only: those_map_Some)
  then show ?thesis using \<open>X \<noteq> []\<close>
    by (simp add: fit_def fitted_def Let_def)
qed

lemma n_features_9: "n_features = 9"
  by (simp add: n_features_def AUDIO_FEATURES_def)

lemma length_values_of: "length (values_of a) = 9"
  by (simp add: values_of_def)

lemma MusicRecommender_eq:
  "MusicRecommender parse raw =
     (if load_full_dataset parse raw = [] then Inl ValueError
      else Inr \<lparr>df = load_full_dataset parse raw,
                the_scaler = fitted (features_of (load_full_dataset parse raw)),
                scaled_features = map (transform (fitted (features_of (load_full_dataset parse raw))))
                                    (features_of (load_full_dataset parse raw))\<rparr>)"
proof (cases "load_full_dataset parse raw = []")
  case True
  then show ?thesis by (simp add: MusicRecommender_def fit_def)
next
  case False
  then have "features_of (load_full_dataset parse raw) \<noteq> []" by (simp add: features_of_def)
  from fit_eq [OF this] False show ?thesis
    by (simp add: MusicRecommender_def features_of_def Let_def)
qed

lemma transform_nth:
  assumes "length x = 9" "j < 9"
  shows "transform (fitted X) x ! j
         = (x ! j - minimum (column j X))
           / handle_zeros_in_scale (maximum (column j X) - minimum (column j X))"
  using assms
  by (simp add: transform_def fitted_def Let_def n_features_9 field_simps diff_divide_distrib)

lemma length_transform: "length x = 9 \<Longrightarrow> length (transform (fitted X) x) = 9"
  by (simp add: transform_def fitted_def Let_def n_features_9)

lemma transform_nonneg:
  assumes "x \<in> set X" "length x = 9"
  shows "list_all (\<lambda>a. 0 \<le> a) (transform (fitted X) x)"
proof -
  have "0 \<le> transform (fitted X) x ! j" if "j < 9" for j
  proof -
    have "x ! j \<in> set (column j X)" using assms(1) by (auto simp: column_def)
    then have "minimum (column j X) \<le> x ! j" by (rule minimum_le)
    moreover have "0 < handle_zeros_in_scale (maximum (column j X) - minimum (column j X))"
      by (rule handle_zeros_pos)
    ultimately show ?thesis using transform_nth [OF assms(2) that, of X] by simp
  qed
  then show ?thesis by (simp add: list_all_length length_transform [OF assms(2)])
qed

section \<open>Closed forms of get_recommendations\<close>

lemma index_of_id:
  assumes "distinct (map track_id d)" "i < length d"
  shows "\<exists>rest. filter (\<lambda>j. track_id (d ! j) = track_id (d ! i)) [0..<length d] = i # rest"
proof -
  let ?P = "\<lambda>j. track_id (d ! j) = track_id (d ! i)"
  have "i \<in> set (filter ?P [0..<length d])" using assms(2) by simp
  then obtain idx rest where f: "filter ?P [0..<length d] = idx # rest"
    by (cases "filter ?P [0..<length d]") auto
  then have "idx \<in> set (filter ?P [0..<length d])" by simp
  then have "idx < length d" "track_id (d ! idx) = track_id (d ! i)" by auto
  then have eq: "map track_id d ! idx = map track_id d ! i" using assms(2) by simp
  have "(map track_id d ! idx = map track_id d ! i) = (idx = i)"
    using assms \<open>idx < length d\<close> by (intro nth_eq_iff_index_eq) simp_all
  with eq have "idx = i" by simp
  with f show ?thesis by simp
qed

lemma enumerate_scores:
  "map (\<lambda>(i, t). F t (map g ts ! i)) (enumerate 0 ts) = map (\<lambda>t. F t (g t)) ts"
  by (rule nth_equalityI) (simp_all add: nth_enumerate_eq)

lemma get_recommendations_plain:
  assumes "filter (\<lambda>j. track_id (df R ! j) = tid) [0..<length (df R)] = idx # rest"
  shows "get_recommendations R tid n False =
         Inr (map (\<lambda>t. (df R ! t, round1 ((similarities_of R idx)[idx := - 1] ! t * 100)))
                (slice_to n (rev (argsort ((similarities_of R idx)[idx := - 1])))))"
proof -
  let ?s = "(similarities_of R idx)[idx := - 1]"
  let ?top = "slice_to n (rev (argsort ?s))"
  have e: "map (\<lambda>(i, t). (df R ! t, round1 (map (\<lambda>i. ?s ! i) ?top ! i * 100))) (enumerate 0 ?top)
           = map (\<lambda>t. (df R ! t, round1 (?s ! t * 100))) ?top"
    by (rule enumerate_scores [of "\<lambda>t v. (df R ! t, round1 (v * 100))"])
  show ?thesis
    using assms e
    by (simp add: get_recommendations_def cosine_similarity_eq similarities_of_def Let_def)
qed

lemma get_recommendations_exclude:
  assumes "filter (\<lambda>j. track_id (df R ! j) = tid) [0..<length (df R)] = idx # rest"
  shows "get_recommendations R tid n True =
         (let mask = (map (\<lambda>r. cell_ne (artists r) (artists (df R ! idx))) (df R))[idx := False];
              valid = filter (\<lambda>i. mask ! i) [0..<length mask];
              vs = map (\<lambda>i. similarities_of R idx ! i) valid
          in Inr (map (\<lambda>l. (df R ! (valid ! l), round1 (vs ! l * 100)))
                    (slice_to n (rev (argsort vs)))))"
proof -
  let ?mask = "(map (\<lambda>r. cell_ne (artists r) (artists (df R ! idx))) (df R))[idx := False]"
  let ?valid = "filter (\<lambda>i. ?mask ! i) [0..<length ?mask]"
  let ?vs = "map (\<lambda>i. similarities_of R idx ! i) ?valid"
  let ?loc = "slice_to n (rev (argsort ?vs))"
  have e: "map (\<lambda>(i, t). (df R ! t, round1 (map (\<lambda>l. ?vs ! l) ?loc ! i * 100)))
             (enumerate 0 (map (\<lambda>l. ?valid ! l) ?loc))
           = map (\<lambda>l. (df R ! (?valid ! l), round1 (?vs ! l * 100))) ?loc"
    by (rule nth_equalityI) (simp_all add: nth_enumerate_eq)
  show ?thesis
    using assms e
    by (simp add: get_recommendations_def cosine_similarity_eq similarities_of_def Let_def)
qed

section \<open>Facts about a constructed recommender\<close>

lemma engine_facts:
  assumes "MusicRecommender parse raw = Inr R"
  shows "df R = load_full_dataset parse raw"
    and "df R \<noteq> []"
    and "scaled_features R
         = map (transform (fitted (features_of (df R)))) (features_of (df R))"
    and "the_scaler R = fitted (features_of (df R))"
proof -
  have ne: "load_full_dataset parse raw \<noteq> []"
    using assms by (auto simp: MusicRecommender_eq split: if_splits)
  then have R: "R = \<lparr>df = load_full_dataset parse raw,
                the_scaler = fitted (features_of (load_full_dataset parse raw)),
                scaled_features = map (transform (fitted (features_of (load_full_dataset parse raw))))
                                    (features_of (load_full_dataset parse raw))\<rparr>"
    using assms by (simp add: MusicRecommender_eq)
  show "df R = load_full_dataset parse raw" by (subst R) simp
  then show "df R \<noteq> []" using ne by simp
  show "scaled_features R = map (transform (fitted (features_of (df R)))) (features_of (df R))"
    by (subst (1 2 3) R) simp
  show "the_scaler R = fitted (features_of (df R))"
    by (subst (1 2) R) simp
qed

lemma engine_distinct:
  "MusicRecommender parse raw = Inr R \<Longrightarrow> distinct (map track_id (df R))"
  by (simp add: engine_facts(1) load_distinct)

lemma engine_artists:
  "MusicRecommender parse raw = Inr R \<Longrightarrow> r \<in> set (df R) \<Longrightarrow> artists r \<noteq> None \<and> track_name r \<noteq> None"
  by (simp add: engine_facts(1) load_artists)

lemma length_similarities_of: "length (similarities_of R idx) = length (scaled_features R)"
  by (simp add: similarities_of_def)

lemma engine_length_scaled:
  "MusicRecommender parse raw = Inr R \<Longrightarrow> length (scaled_features R) = length (df R)"
  by (simp add: engine_facts(3) features_of_def)

lemma engine_scaled_nonneg:
  assumes "MusicRecommender parse raw = Inr R" "j < length (df R)"
  shows "list_all (\<lambda>a. 0 \<le> a) (scaled_features R ! j)"
proof -
  let ?X = "features_of (df R)"
  have len: "j < length ?X" using assms(2) by (simp add: features_of_def)
  have "?X ! j \<in> set ?X" using len by simp
  moreover have "length (?X ! j) = 9"
    using assms(2) by (simp add: features_of_def length_values_of)
  ultimately have "list_all (\<lambda>a. 0 \<le> a) (transform (fitted ?X) (?X ! j))"
    by (rule transform_nonneg)
  moreover have "scaled_features R ! j = transform (fitted ?X) (?X ! j)"
    using len by (simp add: engine_facts(3) [OF assms(1)])
  ultimately show ?thesis by simp
qed

lemma engine_similarities_nonneg:
  assumes "MusicRecommender parse raw = Inr R" "i < length (df R)" "j < length (df R)"
  shows "0 \<le> similarities_of R i ! j"
proof -
  have "list_all (\<lambda>a. 0 \<le> a) (unit_row (scaled_features R ! i))"
    by (rule unit_row_nonneg) (rule engine_scaled_nonneg [OF assms(1,2)])
  moreover have "list_all (\<lambda>a. 0 \<le> a) (unit_row (scaled_features R ! j))"
    by (rule unit_row_nonneg) (rule engine_scaled_nonneg [OF assms(1,3)])
  ultimately have "0 \<le> dot (unit_row (scaled_features R ! i)) (unit_row (scaled_features R ! j))"
    by (rule dot_nonneg)
  then show ?thesis
    using assms(3) by (simp add: similarities_of_def engine_length_scaled [OF assms(1)])
qed

lemma slice_to_drops_last:
  assumes "n \<le> int (length ys)"
  shows "set (slice_to n (ys @ [x])) \<subseteq> set ys"
proof (cases "0 \<le> n")
  case True
  then have "nat n \<le> length ys" using assms by simp
  then have "take (nat n) (ys @ [x]) = take (nat n) ys" by simp
  then show ?thesis using True by (auto simp: slice_to_def dest: in_set_takeD)
next
  case False
  then have "length (ys @ [x]) - nat (- n) \<le> length ys" by simp
  then have "take (length (ys @ [x]) - nat (- n)) (ys @ [x])
             = take (length (ys @ [x]) - nat (- n)) ys" by simp
  then show ?thesis using False by (auto simp: slice_to_def dest: in_set_takeD)
qed

lemma argsort_head_least:
  assumes "i < length s" "\<And>j. j < length s \<Longrightarrow> j \<noteq> i \<Longrightarrow> s ! i < s ! j"
  shows "\<exists>rest. argsort s = i # rest \<and> i \<notin> set rest \<and> set rest \<subseteq> {0..<length s}"
proof -
  have ne: "argsort s \<noteq> []" using assms(1) length_argsort [of s] by auto
  then obtain h rest where hr: "argsort s = h # rest" by (cases "argsort s") auto
  have iin: "i \<in> set (argsort s)" using assms(1) by (simp add: set_argsort)
  have hin: "h < length s" using hr set_argsort [of s] by auto
  have "s ! h \<le> s ! i"
  proof (cases "i = h")
    case True
    then show ?thesis by simp
  next
    case False
    then have "i \<in> set rest" using iin hr by simp
    moreover have "sorted (map (\<lambda>i. s ! i) (h # rest))" using sorted_argsort [of s] hr by simp
    ultimately show ?thesis by auto
  qed
  then have "h = i" using assms(2) [OF hin] by force
  moreover have "h \<notin> set rest" using distinct_argsort [of s] hr by simp
  moreover have "set rest \<subseteq> {0..<length s}" using set_argsort [of s] hr by auto
  ultimately show ?thesis using hr by simp
qed

section \<open>The claims\<close>

text \<open>
  C2, as stated: a row with a missing or non-numeric feature is dropped by the loader.
  It is not: in \<open>raw_missing\<close> the danceability is missing and the energy is no number,
  and the row is in the catalog with 0 in both places.
\<close>

theorem load_keeps_row_with_missing_feature:
  "to_numeric no_parse (danceability (audio (hd raw_missing))) = None
   \<and> to_numeric no_parse (energy (audio (hd raw_missing))) = None
   \<and> map track_id (load_full_dataset no_parse raw_missing) = [''t1'']
   \<and> map (\<lambda>r. values_of (audio r)) (load_full_dataset no_parse raw_missing)
       = [[0, 0, 1, 1, 1, 1, 1, 1, 1]]"
  by (simp add: load_eq drop_duplicates_def raw_missing_def demo_row_def clean_def
      to_numeric_def no_parse_def values_of_def)

text \<open>
  C2, amended: after loading, every item has a complete feature vector, because each
  feature that is missing or not numeric after coercion is replaced by 0; no row is dropped
  for its features, so the catalog is the table without its later duplicates of an id,
  each row cleaned.
\<close>

theorem load_fills_missing_features:
  "load_full_dataset parse raw = map (clean parse) (drop_duplicates raw)"
  by (rule load_eq)

text \<open>
  C8: the query vector of \<open>get_recommendations_by_features\<close> holds, in the order of the
  feature fields, the value of the mapping for a field that is present and the documented
  default for a field that is absent; it is the vector that is scaled and compared.
\<close>

theorem query_vector_defaults:
  "feature_vector features_dict = spec_query_vector features_dict
   \<and> map fst documented_defaults = AUDIO_FEATURES
   \<and> get_recommendations_by_features R features_dict k
       = rank_by_vector R (spec_query_vector features_dict) k"
  by (simp add: feature_vector_def spec_query_vector_def documented_defaults_def dict_get_def
      AUDIO_FEATURES_def get_recommendations_by_features_def)

text \<open>
  C7: a seed id that is not in the catalog gives the empty list of recommendations, and a
  mood that is not in the table of presets, looked up in lower case, gives the empty list;
  neither raises.
\<close>

theorem unknown_lookups_give_empty:
  "(tid \<notin> track_id ` set (df R) \<longrightarrow> get_recommendations R tid k ex = Inr [])
   \<and> (lower mood \<notin> dom mood_presets \<longrightarrow> get_mood_based_recommendations R mood k = Inr [])"
proof (intro conjI impI)
  assume "tid \<notin> track_id ` set (df R)"
  then have "filter (\<lambda>i. track_id (df R ! i) = tid) [0..<length (df R)] = []"
    by (rule no_index_of_unknown_id)
  then show "get_recommendations R tid k ex = Inr []"
    by (simp add: get_recommendations_def)
next
  assume "lower mood \<notin> dom mood_presets"
  then have "mood_presets (lower mood) = None" by (simp add: domIff)
  then show "get_mood_based_recommendations R mood k = Inr []"
    by (simp add: get_mood_based_recommendations_def)
qed

end
